theory Spec2Isabelle
  imports Complex_Main "HOL-Library.AList" "HOL-Library.Multiset"
begin

section \<open>ECMAScript primitives used by the map screens\<close>

text \<open>
  The four screens (\<open>src/app/index.tsx\<close> and the three unnamed parts) are TypeScript
  React components. Their logic uses a handful of built-ins: \<open>String.prototype.substring\<close>,
  \<open>parseInt\<close>, \<open>Array.prototype.sort\<close> with a comparator, property reads and writes on a
  plain object created by \<open>{}\<close>, and \<open>Object.keys\<close>. They are modelled here as the
  ECMAScript specification defines them. Strings are \<open>char list\<close>; the tokens of the
  times API are ASCII, so a \<open>char\<close> is one UTF-16 code unit.
\<close>

subsection \<open>Strings\<close>

text \<open>
  \<open>s.substring(start, end)\<close>: both indices are clamped to the length, and swapped when
  \<open>start > end\<close>. It never throws. \<open>s.substring(start)\<close> takes \<open>end = s.length\<close>.
\<close>

definition substring :: "string \<Rightarrow> nat \<Rightarrow> nat \<Rightarrow> string" where
  "substring s start end =
     (let len = length s;
          finalStart = min start len;
          finalEnd = min end len;
          from = min finalStart finalEnd;
          to = max finalStart finalEnd
      in take (to - from) (drop from s))"

definition substring_from :: "string \<Rightarrow> nat \<Rightarrow> string" where
  "substring_from s start = substring s start (length s)"

subsection \<open>parseInt\<close>

definition is_digit :: "char \<Rightarrow> bool" where
  "is_digit c = (c \<in> set ''0123456789'')"

definition digit_val :: "char \<Rightarrow> int" where
  "digit_val c = of_char c - 48"

definition is_hex_digit :: "char \<Rightarrow> bool" where
  "is_hex_digit c = (c \<in> set ''0123456789abcdefABCDEF'')"

definition hex_val :: "char \<Rightarrow> int" where
  "hex_val c =
     (if is_digit c then of_char c - 48
      else if c \<in> set ''abcdef'' then of_char c - 87
      else of_char c - 55)"

definition is_space :: "char \<Rightarrow> bool" where
  "is_space c = (c \<in> set [CHR '' '', CHR 0x09, CHR 0x0A, CHR 0x0B, CHR 0x0C, CHR 0x0D])"

definition digits_value :: "string \<Rightarrow> int" where
  "digits_value ds = foldl (\<lambda>a c. a * 10 + digit_val c) 0 ds"

definition hex_value :: "string \<Rightarrow> int" where
  "hex_value ds = foldl (\<lambda>a c. a * 16 + hex_val c) 0 ds"

text \<open>
  \<open>parseInt(s)\<close> with no radix: leading white space is skipped, one sign is read, a
  \<open>0x\<close>/\<open>0X\<close> prefix selects radix 16, and the longest prefix of digits is converted.
  With no digit the result is \<open>NaN\<close>, here \<open>None\<close>. The result is a binary64 number; it
  is the exact integer whenever that is below \<open>2^53\<close>, which holds for every string of at
  most 15 digits. Only ASCII white space is modelled.
\<close>

definition parseInt :: "string \<Rightarrow> int option" where
  "parseInt s =
     (let s1 = dropWhile is_space s;
          neg = (take 1 s1 = ''-'');
          s2 = (if take 1 s1 = ''-'' \<or> take 1 s1 = ''+'' then drop 1 s1 else s1);
          hex = (take 2 s2 = ''0x'' \<or> take 2 s2 = ''0X'');
          ds = (if hex then takeWhile is_hex_digit (drop 2 s2) else takeWhile is_digit s2);
          n = (if hex then hex_value ds else digits_value ds)
      in if ds = [] then None
         else Some (if neg then - n else n))"

text \<open>The difference of two numbers; \<open>NaN\<close> is contagious.\<close>

definition num_minus :: "int option \<Rightarrow> int option \<Rightarrow> int option" where
  "num_minus a b =
     (case a of
        None \<Rightarrow> None
      | Some x \<Rightarrow> (case b of None \<Rightarrow> None | Some y \<Rightarrow> Some (x - y)))"

subsection \<open>Array.prototype.sort\<close>

text \<open>
  \<open>xs.sort(comparefn)\<close> is a stable sort; a \<open>NaN\<close> from the comparator counts as
  \<open>+0\<close>. For a consistent comparator the result is determined by the specification, and
  the stable insertion sort below computes it: an element is placed before the first
  element it does not have to follow. (For an inconsistent comparator the order is
  implementation-defined, and this is one admissible outcome.)
\<close>

definition sort_compare :: "('a \<Rightarrow> 'a \<Rightarrow> int option) \<Rightarrow> 'a \<Rightarrow> 'a \<Rightarrow> int" where
  "sort_compare comparefn x y = (case comparefn x y of None \<Rightarrow> 0 | Some v \<Rightarrow> v)"

fun sort_insert :: "('a \<Rightarrow> 'a \<Rightarrow> int option) \<Rightarrow> 'a \<Rightarrow> 'a list \<Rightarrow> 'a list" where
  "sort_insert comparefn x [] = [x]"
| "sort_insert comparefn x (y # ys) =
     (if sort_compare comparefn x y \<le> 0 then x # y # ys
      else y # sort_insert comparefn x ys)"

definition array_sort :: "('a \<Rightarrow> 'a \<Rightarrow> int option) \<Rightarrow> 'a list \<Rightarrow> 'a list" where
  "array_sort comparefn xs = foldr (sort_insert comparefn) xs []"

subsection \<open>Plain objects\<close>

text \<open>
  The accumulator of the reducer is a plain object \<open>{}\<close> whose values are arrays of
  tokens. Its own properties are kept in creation order: assigning to an existing key keeps
  the key's place, assigning to a new key appends (\<open>AList.update\<close> does exactly that).

  A property read falls through to \<open>Object.prototype\<close> when the object has no own
  property of that name; everything found there is a function or an object, hence truthy,
  and has no \<open>push\<close> method.
\<close>

type_synonym obj = "(string \<times> string list) list"

datatype error = TypeError

datatype jsval = Undefined | Arr "string list" | Inherited

definition object_prototype_names :: "string list" where
  "object_prototype_names =
     [''constructor'', ''toString'', ''toLocaleString'', ''valueOf'', ''hasOwnProperty'',
      ''isPrototypeOf'', ''propertyIsEnumerable'', ''__proto__'', ''__defineGetter__'',
      ''__defineSetter__'', ''__lookupGetter__'', ''__lookupSetter__'']"

definition prop_get :: "obj \<Rightarrow> string \<Rightarrow> jsval" where
  "prop_get ob k =
     (case map_of ob k of
        Some v \<Rightarrow> Arr v
      | None \<Rightarrow> if k \<in> set object_prototype_names then Inherited else Undefined)"

definition prop_set :: "obj \<Rightarrow> string \<Rightarrow> string list \<Rightarrow> obj" where
  "prop_set ob k v = AList.update k v ob"

text \<open>
  \<open>Object.keys(o)\<close> lists the own property keys: first the keys that are array indices
  (canonical numeric strings below \<open>2^32 - 1\<close>) in ascending numeric order, then all
  other string keys in creation order. An eight-digit date key without a leading zero, such
  as \<open>20240102\<close>, is an array index.
\<close>

definition is_array_index :: "string \<Rightarrow> bool" where
  "is_array_index k =
     (k \<noteq> [] \<and> list_all is_digit k \<and> (k = ''0'' \<or> take 1 k \<noteq> ''0'')
      \<and> digits_value k < 4294967295)"

definition Object_keys :: "obj \<Rightarrow> string list" where
  "Object_keys ob =
     sort_key digits_value (filter is_array_index (map fst ob))
     @ filter (\<lambda>k. \<not> is_array_index k) (map fst ob)"

text \<open>\<open>xs[i]\<close> on an array: \<open>undefined\<close> (here \<open>None\<close>) out of range.\<close>

definition array_get :: "'a list \<Rightarrow> nat \<Rightarrow> 'a option" where
  "array_get xs i = (if i < length xs then Some (xs ! i) else None)"

section \<open>Component state\<close>

text \<open>
  The state variables of \<open>Home\<close> that the time logic reads and writes, together with the
  console (the diagnostic log) and the GeoJSON requests started by
  \<open>fetchTurbulenceData\<close>, each recorded as the pair of poly layer and time token.
\<close>

record LayerConfig =
  layer_id :: string
  layer_name :: string
  gridLayer :: string
  polyLayer :: string

definition AVAILABLE_LAYERS :: "LayerConfig list" where
  "AVAILABLE_LAYERS =
     [\<lparr>layer_id = ''30-31'', layer_name = ''30-31 kft'',
       gridLayer = ''turb-grid-30-31-kft'', polyLayer = ''turb-poly-30-31-kft''\<rparr>,
      \<lparr>layer_id = ''32-33'', layer_name = ''32-33 kft'',
       gridLayer = ''turb-grid-32-33-kft'', polyLayer = ''turb-poly-32-33-kft''\<rparr>,
      \<lparr>layer_id = ''34-35'', layer_name = ''34-35 kft'',
       gridLayer = ''turb-grid-34-35-kft'', polyLayer = ''turb-poly-34-35-kft''\<rparr>,
      \<lparr>layer_id = ''36-37'', layer_name = ''36-37 kft'',
       gridLayer = ''turb-grid-36-37-kft'', polyLayer = ''turb-poly-36-37-kft''\<rparr>,
      \<lparr>layer_id = ''38-39'', layer_name = ''38-39 kft'',
       gridLayer = ''turb-grid-38-39-kft'', polyLayer = ''turb-poly-38-39-kft''\<rparr>,
      \<lparr>layer_id = ''40-41'', layer_name = ''40-41 kft'',
       gridLayer = ''turb-grid-40-41-kft'', polyLayer = ''turb-poly-40-41-kft''\<rparr>,
      \<lparr>layer_id = ''max'', layer_name = ''Max Value'',
       gridLayer = ''turb-grid-Max-Value-30-41-kft'',
       polyLayer = ''turb-poly-Max-Value-30-41-kft''\<rparr>]"

datatype log_entry = LogError | LogWarn

record state =
  selectedLayer :: LayerConfig
  availableTimes :: "string list"
  selectedTime :: string
  selectedDate :: "string option"
  groupedTimes :: obj
  console :: "log_entry list"
  requested :: "(string \<times> string) list"

definition initial_state :: state where
  "initial_state =
     \<lparr>selectedLayer = hd AVAILABLE_LAYERS, availableTimes = [], selectedTime = [],
      selectedDate = None, groupedTimes = [], console = [], requested = []\<rparr>"

text \<open>
  The state writes of the effect that runs when the layer changes (\<open>index.tsx\<close> lines
  206--212); the call of \<open>fetchTimes\<close> that ends it is modelled separately.
\<close>

definition reset_on_layer_change :: "state \<Rightarrow> state" where
  "reset_on_layer_change s = s\<lparr>availableTimes := [], groupedTimes := [], selectedDate := None\<rparr>"

section \<open>Grouping the available times by date\<close>

text \<open>
  The reducer of the \<open>[availableTimes]\<close> effect, the same in all four files:
  \<^verbatim>\<open>
  const date = time.substring(0, 8);
  if (!acc[date]) { acc[date] = []; }
  acc[date].push(time);
  return acc;
  \<close>
  When \<open>acc[date]\<close> reads an inherited member of \<open>Object.prototype\<close> the test is
  false and the call of \<open>push\<close> throws a \<open>TypeError\<close>.
\<close>

definition group_step :: "obj \<Rightarrow> string \<Rightarrow> error + obj" where
  "group_step acc time =
     (let date = substring time 0 8;
          acc1 = (if prop_get acc date = Undefined then prop_set acc date [] else acc)
      in case prop_get acc1 date of
           Arr xs \<Rightarrow> Inr (prop_set acc1 date (xs @ [time]))
         | _ \<Rightarrow> Inl TypeError)"

fun reduce_group :: "obj \<Rightarrow> string list \<Rightarrow> error + obj" where
  "reduce_group acc [] = Inr acc"
| "reduce_group acc (time # rest) =
     (case group_step acc time of
        Inl e \<Rightarrow> Inl e
      | Inr acc' \<Rightarrow> reduce_group acc' rest)"

text \<open>
  The unsorted variant (\<open>src/app/index.tsx\<close> lines 67--82, \<open>part_001\<close> lines 76--91):
  the grouped object is stored as it is and the selected date is its first key.
\<close>

definition groupTimes_unsorted :: "state \<Rightarrow> error + state" where
  "groupTimes_unsorted s =
     (if length (availableTimes s) > 0 then
        (case reduce_group [] (availableTimes s) of
           Inl e \<Rightarrow> Inl e
         | Inr grouped \<Rightarrow>
             Inr (s\<lparr>groupedTimes := grouped,
                    selectedDate := array_get (Object_keys grouped) 0\<rparr>))
      else Inr s)"

text \<open>
  The sorting variant (\<open>part_000\<close> lines 190--211, \<open>part_002\<close> lines 159--180):
  \<^verbatim>\<open>
  const sortedDates = Object.keys(grouped).sort((a, b) => parseInt(b) - parseInt(a));
  const sortedGrouped = {};
  sortedDates.forEach((date) => {
    sortedGrouped[date] = grouped[date].sort(
      (a, b) => parseInt(b.substring(9)) - parseInt(a.substring(9)));
  });
  setGroupedTimes(sortedGrouped);
  setSelectedDate(sortedDates[0]);
  \<close>
\<close>

definition compare_dates :: "string \<Rightarrow> string \<Rightarrow> int option" where
  "compare_dates a b = num_minus (parseInt b) (parseInt a)"

definition compare_times :: "string \<Rightarrow> string \<Rightarrow> int option" where
  "compare_times a b =
     num_minus (parseInt (substring_from b 9)) (parseInt (substring_from a 9))"

fun build_sorted :: "obj \<Rightarrow> obj \<Rightarrow> string list \<Rightarrow> error + obj" where
  "build_sorted grouped sortedGrouped [] = Inr sortedGrouped"
| "build_sorted grouped sortedGrouped (date # dates) =
     (case prop_get grouped date of
        Arr xs \<Rightarrow>
          build_sorted grouped (prop_set sortedGrouped date (array_sort compare_times xs)) dates
      | _ \<Rightarrow> Inl TypeError)"

definition groupTimes_sorted :: "state \<Rightarrow> error + state" where
  "groupTimes_sorted s =
     (if length (availableTimes s) > 0 then
        (case reduce_group [] (availableTimes s) of
           Inl e \<Rightarrow> Inl e
         | Inr grouped \<Rightarrow>
             (let sortedDates = array_sort compare_dates (Object_keys grouped)
              in case build_sorted grouped [] sortedDates of
                   Inl e \<Rightarrow> Inl e
                 | Inr sortedGrouped \<Rightarrow>
                     Inr (s\<lparr>groupedTimes := sortedGrouped,
                            selectedDate := array_get sortedDates 0\<rparr>)))
      else Inr s)"

text \<open>
  The date row of the picker. The unsorted variant maps over \<open>Object.keys(groupedTimes)\<close>
  (\<open>index.tsx\<close> line 374); the sorting variant sorts the keys again when it renders
  (\<open>part_000\<close> lines 512--513, \<open>part_002\<close> lines 459--460).
\<close>

definition picker_dates_unsorted :: "state \<Rightarrow> string list" where
  "picker_dates_unsorted s = Object_keys (groupedTimes s)"

definition picker_dates_sorted :: "state \<Rightarrow> string list" where
  "picker_dates_sorted s = array_sort compare_dates (Object_keys (groupedTimes s))"

section \<open>Fetching the available times\<close>

text \<open>
  The result of \<open>axios.get(url)\<close>: the promise rejects (a network error or a status
  outside 2xx), or it resolves with a response whose \<open>data\<close> is falsy (\<open>None\<close>) or a
  JSON object from product ids to arrays of tokens. An array, even the empty one, is
  truthy; the product ids of \<open>AVAILABLE_LAYERS\<close> are not members of
  \<open>Object.prototype\<close>, so a missing key reads as \<open>undefined\<close>.
\<close>

datatype response = NetworkError | Response "(string \<times> string list) list option"

definition fetchTurbulenceData :: "string \<Rightarrow> state \<Rightarrow> state" where
  "fetchTurbulenceData time s = s\<lparr>requested := requested s @ [(polyLayer (selectedLayer s), time)]\<rparr>"

text \<open>
  \<open>fetchTimes\<close> of \<open>src/app/index.tsx\<close> (lines 131--155) and of \<open>part_001\<close>
  (lines 141--165). The press handler of a layer button repeats the same branches inline
  for the layer it switches to.
\<close>

definition fetchTimes :: "state \<Rightarrow> response \<Rightarrow> state" where
  "fetchTimes s r =
     (let productId = gridLayer (selectedLayer s) in
      case r of
        NetworkError \<Rightarrow> s\<lparr>console := console s @ [LogError]\<rparr>
      | Response None \<Rightarrow> s
      | Response (Some data) \<Rightarrow>
          (case map_of data productId of
             None \<Rightarrow> s
           | Some timesArr \<Rightarrow>
               (let s1 = s\<lparr>availableTimes := timesArr\<rparr> in
                if length timesArr > 0 then
                  (let latestTime = timesArr ! (length timesArr - 1)
                   in fetchTurbulenceData latestTime (s1\<lparr>selectedTime := latestTime\<rparr>))
                else s1)))"

text \<open>\<open>fetchTimes\<close> of \<open>part_002\<close> (lines 209--229): no GeoJSON request.\<close>

definition fetchTimes_tiles :: "state \<Rightarrow> response \<Rightarrow> state" where
  "fetchTimes_tiles s r =
     (let productId = gridLayer (selectedLayer s) in
      case r of
        NetworkError \<Rightarrow> s\<lparr>console := console s @ [LogError]\<rparr>
      | Response None \<Rightarrow> s
      | Response (Some data) \<Rightarrow>
          (case map_of data productId of
             None \<Rightarrow> s
           | Some timesArr \<Rightarrow>
               (let s1 = s\<lparr>availableTimes := timesArr\<rparr> in
                if length timesArr > 0 then
                  (let latestTime = timesArr ! (length timesArr - 1)
                   in s1\<lparr>selectedTime := latestTime\<rparr>)
                else s1)))"

text \<open>
  \<open>fetchTimes\<close> of \<open>part_000\<close> (lines 214--235): a response without the times warns
  on the console and clears the list.
\<close>

definition no_times :: "state \<Rightarrow> state" where
  "no_times s = s\<lparr>console := console s @ [LogWarn], availableTimes := []\<rparr>"

definition fetchTimes_warn :: "state \<Rightarrow> response \<Rightarrow> state" where
  "fetchTimes_warn s r =
     (let productId = gridLayer (selectedLayer s) in
      case r of
        NetworkError \<Rightarrow> s\<lparr>console := console s @ [LogError]\<rparr>
      | Response None \<Rightarrow> no_times s
      | Response (Some data) \<Rightarrow>
          (case map_of data productId of
             None \<Rightarrow> no_times s
           | Some timesArr \<Rightarrow>
               (let s1 = s\<lparr>availableTimes := timesArr\<rparr> in
                if length timesArr > 0 then
                  (let latestTime = timesArr ! (length timesArr - 1)
                   in s1\<lparr>selectedTime := latestTime\<rparr>)
                else s1)))"

text \<open>A response is malformed when the body is missing or has no entry for the product.\<close>

definition malformed :: "state \<Rightarrow> response \<Rightarrow> bool" where
  "malformed s r =
     (case r of
        NetworkError \<Rightarrow> False
      | Response None \<Rightarrow> True
      | Response (Some data) \<Rightarrow> map_of data (gridLayer (selectedLayer s)) = None)"

section \<open>Formatting\<close>

definition formatTime :: "string \<Rightarrow> string" where
  "formatTime timeString =
     (let year = substring timeString 0 4;
          month = substring timeString 4 6;
          day = substring timeString 6 8;
          hour = substring timeString 9 11;
          minute = substring timeString 11 13
      in year @ ''-'' @ month @ ''-'' @ day @ '' '' @ hour @ '':'' @ minute @ '' UTC'')"

definition formatDate :: "string \<Rightarrow> string" where
  "formatDate dateString =
     (let year = substring dateString 0 4;
          month = substring dateString 4 6;
          day = substring dateString 6 8
      in year @ ''-'' @ month @ ''-'' @ day)"

section \<open>Polygon colour\<close>

text \<open>
  A JavaScript number is a binary64 value: \<open>NaN\<close>, an infinity, or a finite value,
  given here by the real it denotes. Every comparison with \<open>NaN\<close> is false.

  The literals \<open>0.8\<close>, \<open>0.6\<close> and \<open>0.4\<close> of the source denote the binary64 values
  nearest to these decimals, not the decimals: \<open>3602879701896397 / 2^52\<close>, a little above
  \<open>0.8\<close>; \<open>5404319552844595 / 2^53\<close>, a little below \<open>0.6\<close>; and
  \<open>3602879701896397 / 2^53\<close>, a little above \<open>0.4\<close>. The comparison \<open>>=\<close> of two
  finite binary64 values is the exact comparison of the reals they denote.
\<close>

datatype number = NaN | NegInf | Num real | PosInf

definition binary64_0_8 :: real where
  "binary64_0_8 = 3602879701896397 / 4503599627370496"

definition binary64_0_6 :: real where
  "binary64_0_6 = 5404319552844595 / 9007199254740992"

definition binary64_0_4 :: real where
  "binary64_0_4 = 3602879701896397 / 9007199254740992"

definition ge :: "number \<Rightarrow> real \<Rightarrow> bool" where
  "ge p c = (case p of NaN \<Rightarrow> False | NegInf \<Rightarrow> False | Num x \<Rightarrow> x \<ge> c | PosInf \<Rightarrow> True)"



section \<open>Tokens of the fixed format\<close>

text \<open>
  The slices taken by the code fix the format of a token: eight digits \<open>YYYYMMDD\<close> at
  indices 0--7, one separator at index 8, and the digits of the time of day from index 9 on
  (\<open>20240102.060000\<close> in the answers of the times API). A token is valid when it has this
  shape, its year has four significant digits, and its time of day has at most 15 digits, so
  that \<open>parseInt\<close> is exact on it. The twelve-character tokens of the worked example also
  have this shape.
\<close>

definition date_of :: "string \<Rightarrow> string" where
  "date_of time = substring time 0 8"

definition valid_token :: "string \<Rightarrow> bool" where
  "valid_token t =
     (9 < length t \<and> length t \<le> 24 \<and> list_all is_digit (take 8 t) \<and> take 1 t \<noteq> ''0''
      \<and> list_all is_digit (drop 9 t))"

text \<open>
  The numbers the two comparators read: \<open>parseInt(date)\<close> and
  \<open>parseInt(time.substring(9))\<close>. On a valid token neither is \<open>NaN\<close>; the value
  given to \<open>NaN\<close> here is never used for one.
\<close>

definition number_or_zero :: "int option \<Rightarrow> int" where
  "number_or_zero n = (case n of None \<Rightarrow> 0 | Some v \<Rightarrow> v)"

definition date_number :: "string \<Rightarrow> int" where
  "date_number k = number_or_zero (parseInt k)"

definition intraday :: "string \<Rightarrow> int" where
  "intraday t = number_or_zero (parseInt (substring_from t 9))"

text \<open>The bucket of a key: the own property's array, empty when there is none.\<close>

definition bucket :: "obj \<Rightarrow> string \<Rightarrow> string list" where
  "bucket ob k = (case map_of ob k of None \<Rightarrow> [] | Some ts \<Rightarrow> ts)"

definition descending_by :: "('a \<Rightarrow> int) \<Rightarrow> 'a list \<Rightarrow> bool" where
  "descending_by f xs = sorted_wrt (\<lambda>a b. f a \<ge> f b) xs"

text \<open>
  The invariant of the index, for a list \<open>xs\<close> of tokens and a mapping \<open>g\<close>: no key
  occurs twice; a bucket holds only tokens whose first eight characters are its key; every
  token of the list is in the bucket of its date; and the buckets, concatenated, are a
  permutation of the list.
\<close>

definition buckets_partition :: "string list \<Rightarrow> obj \<Rightarrow> bool" where
  "buckets_partition xs g =
     (distinct (map fst g)
      \<and> (\<forall>(k, b)\<in>set g. \<forall>t\<in>set b. date_of t = k)
      \<and> (\<forall>t\<in>set xs. t \<in> set (bucket g (date_of t)))
      \<and> mset (concat (map snd g)) = mset xs)"

section \<open>Example states\<close>

text \<open>
  The three tokens of the worked example as the list of available times, and three tokens
  in the format of the times API, oldest first as the API returns them.
\<close>

definition example_state :: state where
  "example_state =
     initial_state\<lparr>availableTimes := [''202401010000'', ''202401010600'', ''202401020000'']\<rparr>"

definition two_days_state :: state where
  "two_days_state =
     initial_state\<lparr>availableTimes :=
       [''20240101.000000'', ''20240101.060000'', ''20240102.000000'']\<rparr>"

text \<open>
  A run of \<open>part_000\<close>: the state after the three tokens were fetched and grouped, and
  the state after a later answer of the times fetch came without the times.
\<close>

definition loaded_state :: state where
  "loaded_state =
     initial_state\<lparr>
       availableTimes := [''20240101.000000'', ''20240101.060000'', ''20240102.000000''],
       selectedTime := ''20240102.000000'',
       groupedTimes := [(''20240102'', [''20240102.000000'']),
                        (''20240101'', [''20240101.060000'', ''20240101.000000''])],
       selectedDate := Some ''20240102''\<rparr>"

definition emptied_state :: state where
  "emptied_state = loaded_state\<lparr>console := [LogWarn], availableTimes := []\<rparr>"

section \<open>Facts about the primitives\<close>

subsection \<open>Slices\<close>

lemma last_index: "ts \<noteq> [] \<Longrightarrow> ts ! (length ts - Suc 0) = last ts"
  by (simp add: last_conv_nth)

lemma substring_0_8: "substring t 0 8 = take 8 t"
  by (simp add: substring_def Let_def min_def)

lemma substring_from_9: "substring_from t 9 = drop 9 t"
  by (simp add: substring_from_def substring_def Let_def min_def max_def)

lemma formatTime_short: "length t \<le> 4 \<Longrightarrow> formatTime t = t @ ''-- : UTC''"
  by (simp add: formatTime_def substring_def Let_def min_def max_def)

lemma array_get_0: "ys \<noteq> [] \<Longrightarrow> array_get ys 0 = Some (ys ! 0)"
  by (simp add: array_get_def)


subsection \<open>parseInt on strings of digits\<close>

lemma digits_value_snoc: "digits_value (ds @ [c]) = digits_value ds * 10 + digit_val c"
  by (simp add: digits_value_def)

lemma digit_val_range: "is_digit c \<Longrightarrow> 0 \<le> digit_val c \<and> digit_val c \<le> 9"
  by (auto simp: is_digit_def digit_val_def)

lemma digits_value_range:
  "list_all is_digit ds \<Longrightarrow> 0 \<le> digits_value ds \<and> digits_value ds < 10 ^ length ds"
proof (induction ds rule: rev_induct)
  case Nil
  show ?case by (simp add: digits_value_def)
next
  case (snoc c ds)
  then have ih: "0 \<le> digits_value ds" "digits_value ds < 10 ^ length ds"
    and c: "0 \<le> digit_val c" "digit_val c \<le> 9"
    using digit_val_range by auto
  from ih(2) have "digits_value ds + 1 \<le> 10 ^ length ds" by simp
  then have "(digits_value ds + 1) * 10 \<le> 10 ^ length ds * 10" by (rule mult_right_mono) simp
  with ih c show ?case by (simp add: digits_value_snoc algebra_simps)
qed

lemma parseInt_digits:
  assumes "ds \<noteq> []" and "list_all is_digit ds"
  shows "parseInt ds = Some (digits_value ds)"
proof -
  obtain c cs where ds: "ds = c # cs" using assms(1) by (cases ds) auto
  with assms(2) have c: "is_digit c" and cs: "list_all is_digit cs" by auto
  from c have nsp: "\<not> is_space c" by (auto simp: is_digit_def is_space_def)
  from c have nsign: "c \<noteq> CHR ''-''" "c \<noteq> CHR ''+''" by (auto simp: is_digit_def)
  have nhex: "take 2 ds \<noteq> ''0x''" "take 2 ds \<noteq> ''0X''"
  proof -
    show "take 2 ds \<noteq> ''0x''"
    proof
      assume "take 2 ds = ''0x''"
      then have "list_all is_digit ''0x''" using assms(2)
        by (metis append_take_drop_id list_all_append)
      then show False by (simp add: is_digit_def)
    qed
    show "take 2 ds \<noteq> ''0X''"
    proof
      assume "take 2 ds = ''0X''"
      then have "list_all is_digit ''0X''" using assms(2)
        by (metis append_take_drop_id list_all_append)
      then show False by (simp add: is_digit_def)
    qed
  qed
  have tw: "takeWhile is_digit ds = ds" using assms(2) by (simp add: list_all_iff)
  have dw: "dropWhile is_space ds = ds" using nsp ds by simp
  have t1: "take 1 ds = [c]" using ds by simp
  show ?thesis
    unfolding parseInt_def dw Let_def t1 using nsign nhex assms(1) by (simp add: tw)
qed


subsection \<open>The comparator sort\<close>

text \<open>
  The sort is a permutation, and for a comparator that subtracts a key, as both comparators
  of the code do on valid tokens, its result is in descending order of the key.
\<close>

lemma mset_sort_insert: "mset (sort_insert c x ys) = add_mset x (mset ys)"
  by (induction ys) auto

lemma mset_array_sort: "mset (array_sort c xs) = mset xs"
  by (induction xs) (auto simp: array_sort_def mset_sort_insert)

lemma set_array_sort: "set (array_sort c xs) = set xs"
  by (metis mset_array_sort set_mset_mset)

lemma distinct_array_sort: "distinct (array_sort c xs) = distinct xs"
  by (metis mset_array_sort mset_eq_imp_distinct_iff)

lemma length_array_sort: "length (array_sort c xs) = length xs"
  by (metis mset_array_sort size_mset)

lemma set_sort_insert: "set (sort_insert c x ys) = insert x (set ys)"
  by (metis mset_sort_insert set_mset_add_mset_insert set_mset_mset)

lemma descending_sort_insert:
  assumes "\<forall>a\<in>insert x (set ys). \<forall>b\<in>insert x (set ys). c a b = Some (f b - f a)"
    and "descending_by f ys"
  shows "descending_by f (sort_insert c x ys)"
  using assms
proof (induction ys)
  case Nil
  show ?case by (simp add: descending_by_def)
next
  case (Cons y ys)
  have cxy: "sort_compare c x y = f y - f x" using Cons.prems(1) by (simp add: sort_compare_def)
  have tail: "descending_by f ys" and above: "\<forall>z\<in>set ys. f z \<le> f y"
    using Cons.prems(2) by (auto simp: descending_by_def)
  show ?case
  proof (cases "f y \<le> f x")
    case True
    then show ?thesis using cxy Cons.prems(2) above by (auto simp: descending_by_def)
  next
    case False
    have ih: "descending_by f (sort_insert c x ys)"
      using Cons.IH Cons.prems(1) tail by simp
    show ?thesis using False cxy ih above
      by (auto simp: descending_by_def set_sort_insert)
  qed
qed

lemma descending_array_sort:
  assumes "\<forall>a\<in>set xs. \<forall>b\<in>set xs. c a b = Some (f b - f a)"
  shows "descending_by f (array_sort c xs)"
  using assms
proof (induction xs)
  case Nil
  show ?case by (simp add: array_sort_def descending_by_def)
next
  case (Cons x xs)
  have ih: "descending_by f (array_sort c xs)" using Cons by simp
  have "descending_by f (sort_insert c x (array_sort c xs))"
    by (rule descending_sort_insert) (use Cons.prems ih in \<open>auto simp: set_array_sort\<close>)
  then show ?case by (simp add: array_sort_def)
qed

lemma descending_head:
  assumes "descending_by f ys" and "ys \<noteq> []"
  shows "\<forall>y\<in>set ys. f y \<le> f (ys ! 0)"
  using assms by (cases ys) (auto simp: descending_by_def)

lemma sorted_head:
  assumes "sorted (map f ys)" and "ys \<noteq> []"
  shows "\<forall>y\<in>set ys. f (ys ! 0) \<le> f y"
  using assms by (cases ys) auto


subsection \<open>Own keys\<close>

lemma object_keys_single: "Object_keys [(k, v)] = [k]"
  by (simp add: Object_keys_def)

lemma mset_Object_keys: "mset (Object_keys ob) = mset (map fst ob)"
  unfolding Object_keys_def by (simp add: multiset_partition [symmetric])

lemma set_Object_keys: "set (Object_keys ob) = fst ` set ob"
  by (metis mset_Object_keys set_mset_mset set_map)

lemma distinct_Object_keys: "distinct (Object_keys ob) = distinct (map fst ob)"
  by (metis mset_Object_keys mset_eq_imp_distinct_iff)

lemma Object_keys_indices:
  assumes "\<forall>k\<in>fst ` set ob. is_array_index k"
  shows "Object_keys ob = sort_key digits_value (map fst ob)"
proof -
  have "filter is_array_index (map fst ob) = map fst ob" using assms by (auto simp: filter_id_conv)
  moreover have "filter (\<lambda>k. \<not> is_array_index k) (map fst ob) = []" using assms by (auto simp: filter_empty_conv)
  ultimately show ?thesis by (simp add: Object_keys_def)
qed


section \<open>Facts about the grouping\<close>

subsection \<open>Valid tokens\<close>

lemma date_of_take: "date_of t = take 8 t"
  by (simp add: date_of_def substring_0_8)

lemma valid_date_digits:
  assumes "valid_token t"
  shows "length (date_of t) = 8" and "list_all is_digit (date_of t)" and "date_of t \<noteq> []"
    and "take 1 (date_of t) \<noteq> ''0''"
  using assms by (auto simp: valid_token_def date_of_take)

lemma valid_date_not_inherited:
  assumes "valid_token t"
  shows "date_of t \<notin> set object_prototype_names"
proof
  assume "date_of t \<in> set object_prototype_names"
  moreover have "list_all is_digit (date_of t)" "length (date_of t) = 8"
    using assms by (rule valid_date_digits)+
  ultimately show False
    by (auto simp: object_prototype_names_def is_digit_def)
qed

lemma valid_date_is_index:
  assumes "valid_token t"
  shows "is_array_index (date_of t)"
proof -
  have d: "list_all is_digit (date_of t)" and l: "length (date_of t) = 8"
    and n: "date_of t \<noteq> []" and z: "take 1 (date_of t) \<noteq> ''0''"
    using assms by (rule valid_date_digits)+
  have "digits_value (date_of t) < 10 ^ 8" using digits_value_range [OF d] l by simp
  then have "digits_value (date_of t) < 4294967295" by simp
  with d n z show ?thesis by (simp add: is_array_index_def)
qed

lemma valid_date_number:
  assumes "valid_token t"
  shows "parseInt (date_of t) = Some (date_number (date_of t))"
    and "date_number (date_of t) = digits_value (date_of t)"
  using assms parseInt_digits [of "date_of t"] valid_date_digits [of t]
  by (simp_all add: date_number_def number_or_zero_def)

lemma valid_intraday:
  assumes "valid_token t"
  shows "parseInt (substring_from t 9) = Some (intraday t)"
proof -
  have "drop 9 t \<noteq> []" and "list_all is_digit (drop 9 t)"
    using assms by (auto simp: valid_token_def)
  then show ?thesis
    using parseInt_digits [of "drop 9 t"]
    by (simp add: intraday_def number_or_zero_def substring_from_9)
qed

lemma compare_dates_valid:
  assumes "valid_token t" and "valid_token u"
  shows "compare_dates (date_of t) (date_of u)
           = Some (date_number (date_of u) - date_number (date_of t))"
  using assms by (simp add: compare_dates_def num_minus_def valid_date_number(1))

lemma compare_times_valid:
  assumes "valid_token t" and "valid_token u"
  shows "compare_times t u = Some (intraday u - intraday t)"
  using assms by (simp add: compare_times_def num_minus_def valid_intraday)

lemma valid_examples:
  "valid_token ''20240101.000000''" "valid_token ''20240101.060000''"
  "valid_token ''20240102.000000''"
  by (simp_all add: valid_token_def is_digit_def)


subsection \<open>The reducer\<close>

text \<open>
  As long as no date key names a member of \<open>Object.prototype\<close>, the reducer succeeds and
  appends each token to the bucket of its date; a new key is created at the end.
\<close>

lemma bucket_update: "bucket (AList.update k v al) k' = (if k' = k then v else bucket al k')"
  by (simp add: bucket_def update_conv')

lemma prop_get_own: "prop_get acc k = (if k \<in> fst ` set acc then Arr (bucket acc k)
     else if k \<in> set object_prototype_names then Inherited else Undefined)"
proof (cases "map_of acc k")
  case None
  then have "k \<notin> fst ` set acc" by (simp add: map_of_eq_None_iff)
  with None show ?thesis by (simp add: prop_get_def)
next
  case (Some v)
  then have "k \<in> fst ` set acc" using map_of_eq_None_iff [of acc k] by auto
  with Some show ?thesis by (simp add: prop_get_def bucket_def)
qed

lemma update_absent: "k \<notin> fst ` set al \<Longrightarrow> AList.update k v al = al @ [(k, v)]"
  by (induction al) auto

lemma bucket_absent: "k \<notin> fst ` set al \<Longrightarrow> bucket al k = []"
  by (simp add: bucket_def map_of_eq_None_iff [THEN iffD2])

lemma bucket_own: "distinct (map fst al) \<Longrightarrow> (k, v) \<in> set al \<Longrightarrow> bucket al k = v"
  by (simp add: bucket_def)

lemma group_step_empty:
  assumes "length t < 8" and "t \<notin> set object_prototype_names"
  shows "group_step [] t = Inr [(t, [t])]"
  using assms by (simp add: group_step_def substring_0_8 prop_get_def prop_set_def Let_def)

lemma group_step_ok:
  assumes "date_of t \<notin> set object_prototype_names"
  shows "group_step acc t = Inr (AList.update (date_of t) (bucket acc (date_of t) @ [t]) acc)"
  using assms
  by (simp add: group_step_def date_of_def [symmetric] prop_get_own prop_set_def Let_def
      dom_update bucket_update bucket_absent)

lemma mset_concat_update:
  "mset (concat (map snd (AList.update k (bucket al k @ [t]) al)))
     = add_mset t (mset (concat (map snd al)))"
  by (induction al) (auto simp: bucket_def)

lemma reduce_group_ok:
  assumes "\<forall>t\<in>set xs. date_of t \<notin> set object_prototype_names"
  shows "\<exists>acc'. reduce_group acc xs = Inr acc'
     \<and> (\<forall>k. bucket acc' k = bucket acc k @ filter (\<lambda>t. date_of t = k) xs)
     \<and> fst ` set acc' = fst ` set acc \<union> date_of ` set xs
     \<and> (distinct (map fst acc) \<longrightarrow> distinct (map fst acc'))
     \<and> mset (concat (map snd acc')) = mset (concat (map snd acc)) + mset xs"
  using assms
proof (induction xs arbitrary: acc)
  case Nil
  show ?case by simp
next
  case (Cons x xs)
  let ?a = "AList.update (date_of x) (bucket acc (date_of x) @ [x]) acc"
  have step: "group_step acc x = Inr ?a" using Cons.prems by (simp add: group_step_ok)
  obtain acc' where r: "reduce_group ?a xs = Inr acc'"
    and b: "\<forall>k. bucket acc' k = bucket ?a k @ filter (\<lambda>t. date_of t = k) xs"
    and d: "fst ` set acc' = fst ` set ?a \<union> date_of ` set xs"
    and dist: "distinct (map fst ?a) \<longrightarrow> distinct (map fst acc')"
    and m: "mset (concat (map snd acc')) = mset (concat (map snd ?a)) + mset xs"
    using Cons.IH [of ?a] Cons.prems by auto
  have "reduce_group acc (x # xs) = Inr acc'" using step r by simp
  moreover have "\<forall>k. bucket acc' k = bucket acc k @ filter (\<lambda>t. date_of t = k) (x # xs)"
    using b by (simp add: bucket_update)
  moreover have "fst ` set acc' = fst ` set acc \<union> date_of ` set (x # xs)"
    using d by (auto simp: dom_update)
  moreover have "distinct (map fst acc) \<longrightarrow> distinct (map fst acc')"
    using dist by (simp add: distinct_update)
  moreover have "mset (concat (map snd acc')) = mset (concat (map snd acc)) + mset (x # xs)"
    using m by (simp add: mset_concat_update)
  ultimately show ?case by blast
qed

lemma reduce_group_valid:
  assumes "\<forall>t\<in>set xs. valid_token t"
  obtains grouped where "reduce_group [] xs = Inr grouped"
    and "\<And>k. bucket grouped k = filter (\<lambda>t. date_of t = k) xs"
    and "fst ` set grouped = date_of ` set xs"
    and "distinct (map fst grouped)"
    and "mset (concat (map snd grouped)) = mset xs"
proof -
  have "\<forall>t\<in>set xs. date_of t \<notin> set object_prototype_names"
    using assms valid_date_not_inherited by blast
  from reduce_group_ok [OF this, of "[]"]
  have "\<exists>g. reduce_group [] xs = Inr g
      \<and> (\<forall>k. bucket g k = filter (\<lambda>t. date_of t = k) xs)
      \<and> fst ` set g = date_of ` set xs
      \<and> distinct (map fst g)
      \<and> mset (concat (map snd g)) = mset xs"
    by (simp add: bucket_def)
  then obtain g where
    g: "reduce_group [] xs = Inr g
      \<and> (\<forall>k. bucket g k = filter (\<lambda>t. date_of t = k) xs)
      \<and> fst ` set g = date_of ` set xs
      \<and> distinct (map fst g)
      \<and> mset (concat (map snd g)) = mset xs" ..
  show ?thesis
    by (rule that [of g]) (use g in simp_all)
qed


subsection \<open>The sorted copy\<close>

text \<open>
  The loop over \<open>sortedDates\<close> never fails, since every date is an own key of
  \<open>grouped\<close>, and creates the keys of \<open>sortedGrouped\<close> in the order of
  \<open>sortedDates\<close>.
\<close>

lemma build_sorted_ok:
  assumes "distinct ds" and "set ds \<subseteq> fst ` set grouped" and "set ds \<inter> fst ` set sg = {}"
  shows "build_sorted grouped sg ds
           = Inr (sg @ map (\<lambda>d. (d, array_sort compare_times (bucket grouped d))) ds)"
  using assms
proof (induction ds arbitrary: sg)
  case Nil
  show ?case by simp
next
  case (Cons d ds)
  have own: "prop_get grouped d = Arr (bucket grouped d)" using Cons.prems(2) by (simp add: prop_get_own)
  have fresh: "d \<notin> fst ` set sg" using Cons.prems(3) by auto
  let ?sg = "sg @ [(d, array_sort compare_times (bucket grouped d))]"
  have "build_sorted grouped ?sg ds
          = Inr (?sg @ map (\<lambda>d. (d, array_sort compare_times (bucket grouped d))) ds)"
    by (rule Cons.IH) (use Cons.prems in auto)
  then show ?case using own fresh by (simp add: prop_set_def update_absent)
qed

lemma bucket_map_keys:
  "bucket (map (\<lambda>d. (d, f d)) ds) k = (if k \<in> set ds then f k else [])"
  by (induction ds) (auto simp: bucket_def)

lemma keys_map_keys: "map fst (map (\<lambda>d. (d, f d)) ds) = ds"
  by (induction ds) auto

lemma mset_concat_cong:
  assumes "mset ds = mset es"
  shows "mset (concat (map f ds)) = mset (concat (map f es))"
proof -
  have "mset (concat (map f zs)) = sum_mset (image_mset (\<lambda>d. mset (f d)) (mset zs))" for zs
    by (induction zs) auto
  then show ?thesis using assms by simp
qed

lemma concat_buckets:
  assumes "distinct (map fst al)"
  shows "concat (map (bucket al) (map fst al)) = concat (map snd al)"
proof -
  have "bucket al (fst p) = snd p" if "p \<in> set al" for p
    using assms that bucket_own [of al "fst p" "snd p"] by simp
  then have eq: "map (bucket al) (map fst al) = map snd al"
    unfolding map_map by (intro map_cong refl) simp
  show ?thesis by (simp only: eq)
qed


subsection \<open>The two variants on valid tokens\<close>

lemma groupTimes_unsorted_valid:
  assumes "availableTimes s \<noteq> []" and "reduce_group [] (availableTimes s) = Inr grouped"
  shows "groupTimes_unsorted s
           = Inr (s\<lparr>groupedTimes := grouped, selectedDate := array_get (Object_keys grouped) 0\<rparr>)"
  using assms by (simp add: groupTimes_unsorted_def)

lemma groupTimes_sorted_valid:
  assumes "availableTimes s \<noteq> []" and "reduce_group [] (availableTimes s) = Inr grouped"
    and "distinct (map fst grouped)"
  shows "groupTimes_sorted s
           = Inr (s\<lparr>groupedTimes :=
                      map (\<lambda>d. (d, array_sort compare_times (bucket grouped d)))
                        (array_sort compare_dates (Object_keys grouped)),
                    selectedDate := array_get (array_sort compare_dates (Object_keys grouped)) 0\<rparr>)"
proof -
  let ?ds = "array_sort compare_dates (Object_keys grouped)"
  have "build_sorted grouped [] ?ds
          = Inr ([] @ map (\<lambda>d. (d, array_sort compare_times (bucket grouped d))) ?ds)"
  proof (rule build_sorted_ok)
    show "distinct ?ds" using assms(3) by (simp add: distinct_array_sort distinct_Object_keys)
    show "set ?ds \<subseteq> fst ` set grouped" by (simp add: set_array_sort set_Object_keys)
    show "set ?ds \<inter> fst ` set [] = {}" by simp
  qed
  then show ?thesis using assms(1,2) by (simp add: groupTimes_sorted_def Let_def)
qed

lemma variants_on_valid:
  assumes "availableTimes s \<noteq> []" and "\<forall>t\<in>set (availableTimes s). valid_token t"
  obtains grouped where
    "groupTimes_unsorted s
       = Inr (s\<lparr>groupedTimes := grouped, selectedDate := array_get (Object_keys grouped) 0\<rparr>)"
    and "groupTimes_sorted s
       = Inr (s\<lparr>groupedTimes :=
                  map (\<lambda>d. (d, array_sort compare_times (bucket grouped d)))
                    (array_sort compare_dates (Object_keys grouped)),
                selectedDate := array_get (array_sort compare_dates (Object_keys grouped)) 0\<rparr>)"
    and "\<And>k. bucket grouped k = filter (\<lambda>t. date_of t = k) (availableTimes s)"
    and "fst ` set grouped = date_of ` set (availableTimes s)"
    and "distinct (map fst grouped)"
    and "mset (concat (map snd grouped)) = mset (availableTimes s)"
proof -
  from assms(2) obtain grouped where g: "reduce_group [] (availableTimes s) = Inr grouped"
    "\<And>k. bucket grouped k = filter (\<lambda>t. date_of t = k) (availableTimes s)"
    "fst ` set grouped = date_of ` set (availableTimes s)"
    "distinct (map fst grouped)"
    "mset (concat (map snd grouped)) = mset (availableTimes s)"
    by (rule reduce_group_valid) (rule that; assumption)
  show ?thesis
    by (rule that [of grouped])
      (use g assms(1) groupTimes_unsorted_valid groupTimes_sorted_valid in simp_all)
qed

lemma sorted_dates_descending:
  assumes "\<forall>t\<in>set xs. valid_token t" and "set ks = date_of ` set xs"
  shows "descending_by date_number (array_sort compare_dates ks)"
  by (rule descending_array_sort) (use assms compare_dates_valid in auto)

lemma sorted_bucket_descending:
  assumes "\<forall>t\<in>set b. valid_token t"
  shows "descending_by intraday (array_sort compare_times b)"
  by (rule descending_array_sort) (use assms compare_times_valid in auto)


lemma unsorted_keys_ascending:
  assumes "\<forall>t\<in>set xs. valid_token t" and "fst ` set grouped = date_of ` set xs"
  shows "Object_keys grouped = sort_key digits_value (map fst grouped)"
    and "sorted (map date_number (Object_keys grouped))"
proof -
  have "\<forall>k\<in>fst ` set grouped. is_array_index k"
    using assms valid_date_is_index by auto
  then show asc: "Object_keys grouped = sort_key digits_value (map fst grouped)"
    by (rule Object_keys_indices)
  have dn: "date_number k = digits_value k" if "k \<in> set (Object_keys grouped)" for k
    using that assms valid_date_number(2) by (auto simp: set_Object_keys)
  have eq: "map date_number (Object_keys grouped) = map digits_value (Object_keys grouped)"
    by (intro map_cong refl dn)
  have "sorted (map digits_value (Object_keys grouped))"
    unfolding asc by (rule sorted_sort_key)
  then show "sorted (map date_number (Object_keys grouped))" by (simp only: eq)
qed

lemma partition_grouped:
  assumes "\<And>k. bucket grouped k = filter (\<lambda>t. date_of t = k) xs"
    and "distinct (map fst grouped)"
    and "mset (concat (map snd grouped)) = mset xs"
  shows "buckets_partition xs grouped"
proof -
  have "date_of t = k" if "(k, b) \<in> set grouped" and "t \<in> set b" for k b t
  proof -
    have "bucket grouped k = b" using assms(2) that(1) by (rule bucket_own)
    then show ?thesis using assms(1) [of k] that(2) by auto
  qed
  moreover have "t \<in> set (bucket grouped (date_of t))" if "t \<in> set xs" for t
    using that by (simp add: assms(1))
  ultimately show ?thesis using assms(2,3) by (auto simp: buckets_partition_def)
qed

lemma partition_sorted_copy:
  assumes "\<And>k. bucket grouped k = filter (\<lambda>t. date_of t = k) xs"
    and "distinct (map fst grouped)"
    and "mset (concat (map snd grouped)) = mset xs"
    and "fst ` set grouped = date_of ` set xs"
  shows "buckets_partition xs
           (map (\<lambda>d. (d, array_sort compare_times (bucket grouped d)))
              (array_sort compare_dates (Object_keys grouped)))"
proof -
  let ?ds = "array_sort compare_dates (Object_keys grouped)"
  let ?f = "\<lambda>d. array_sort compare_times (bucket grouped d)"
  let ?g = "map (\<lambda>d. (d, ?f d)) ?ds"
  have ds: "set ?ds = date_of ` set xs" by (simp add: set_array_sort set_Object_keys assms(4))
  have mds: "mset ?ds = mset (map fst grouped)" by (simp add: mset_array_sort mset_Object_keys)
  have "distinct (map fst ?g)"
    using assms(2) by (simp add: comp_def distinct_array_sort distinct_Object_keys)
  moreover have "date_of t = k" if "(k, b) \<in> set ?g" and "t \<in> set b" for k b t
  proof -
    from that(1) have "b = ?f k" by auto
    with that(2) have "t \<in> set (bucket grouped k)" by (simp add: set_array_sort)
    then show ?thesis by (simp add: assms(1))
  qed
  moreover have "t \<in> set (bucket ?g (date_of t))" if "t \<in> set xs" for t
  proof -
    have "date_of t \<in> set ?ds" using that ds by auto
    then show ?thesis using that by (simp add: bucket_map_keys set_array_sort assms(1))
  qed
  moreover have "mset (concat (map snd ?g)) = mset xs"
  proof -
    have "map snd ?g = map ?f ?ds" by (simp add: comp_def)
    then have "mset (concat (map snd ?g)) = mset (concat (map ?f ?ds))" by (simp only:)
    also have "\<dots> = mset (concat (map ?f (map fst grouped)))" by (rule mset_concat_cong [OF mds])
    also have "\<dots> = mset (concat (map (bucket grouped) (map fst grouped)))"
      by (simp add: mset_concat mset_array_sort comp_def)
    also have "\<dots> = mset (concat (map snd grouped))" by (simp only: concat_buckets [OF assms(2)])
    finally show ?thesis using assms(3) by simp
  qed
  ultimately show ?thesis unfolding buckets_partition_def by blast
qed


section \<open>Order of dates and of times (C1)\<close>

text \<open>
  The unsorted variant (\<open>index.tsx\<close>, \<open>part_001\<close>) sorts nothing: on three tokens in
  the order of the API the bucket of the first day is in ascending order of time and the
  dates are listed in ascending order. In the sorting variant the keys of
  \<open>sortedGrouped\<close> are created in descending order, but both are array indices, and
  the mapping enumerates them in ascending order.
\<close>

theorem unsorted_not_descending:
  "groupTimes_unsorted two_days_state =
     Inr (two_days_state\<lparr>
       groupedTimes := [(''20240101'', [''20240101.000000'', ''20240101.060000'']),
                        (''20240102'', [''20240102.000000''])],
       selectedDate := Some ''20240101''\<rparr>)
   \<and> \<not> descending_by intraday [''20240101.000000'', ''20240101.060000'']
   \<and> Object_keys [(''20240101'', [''20240101.000000'', ''20240101.060000'']),
                    (''20240102'', [''20240102.000000''])] = [''20240101'', ''20240102'']
   \<and> \<not> descending_by date_number [''20240101'', ''20240102'']
   \<and> groupTimes_sorted two_days_state =
     Inr (two_days_state\<lparr>
       groupedTimes := [(''20240102'', [''20240102.000000'']),
                        (''20240101'', [''20240101.060000'', ''20240101.000000''])],
       selectedDate := Some ''20240102''\<rparr>)
   \<and> Object_keys [(''20240102'', [''20240102.000000'']),
                    (''20240101'', [''20240101.060000'', ''20240101.000000''])]
       = [''20240101'', ''20240102'']"
  by code_simp

text \<open>
  The time of day that the comparator reads starts at index 9. Tokens without a separator
  at index 8, as those of the worked example, lose their first time digit in the comparison:
  of \<open>0900\<close> and \<open>1000\<close> on the same day the sorting variant puts \<open>0900\<close> first.
\<close>

lemma comparator_skips_index_8:
  "groupTimes_sorted (initial_state\<lparr>availableTimes := [''202401011000'', ''202401010900'']\<rparr>)
     = Inr (initial_state\<lparr>availableTimes := [''202401011000'', ''202401010900''],
             groupedTimes := [(''20240101'', [''202401010900'', ''202401011000''])],
             selectedDate := Some ''20240101''\<rparr>)"
  by code_simp

text \<open>
  Claim C1, as amended: for every non-empty list of valid tokens, the sorting variant
  (\<open>part_000\<close>, \<open>part_002\<close>) builds a mapping in which every bucket is in descending
  order of the time of day (the number read from index 9 on), and the dates of its picker,
  which are the keys of the mapping sorted again at render time, are exactly the dates of
  the input in descending order. The unsorted variant (\<open>index.tsx\<close>, \<open>part_001\<close>)
  keeps every bucket in input order and lists the dates in ascending order. The order in
  which the mapping of the sorting variant enumerates its own keys is not part of the
  statement.
\<close>

theorem sorting_variant_orders:
  assumes "availableTimes s \<noteq> []" and "\<forall>t\<in>set (availableTimes s). valid_token t"
  shows "(\<exists>r. groupTimes_sorted s = Inr r
           \<and> (\<forall>k. descending_by intraday (bucket (groupedTimes r) k))
           \<and> descending_by date_number (picker_dates_sorted r)
           \<and> distinct (picker_dates_sorted r)
           \<and> set (picker_dates_sorted r) = date_of ` set (availableTimes s))
       \<and> (\<exists>u. groupTimes_unsorted s = Inr u
           \<and> (\<forall>k. bucket (groupedTimes u) k
                    = filter (\<lambda>t. date_of t = k) (availableTimes s))
           \<and> sorted (map date_number (picker_dates_unsorted u)))"
proof -
  let ?xs = "availableTimes s"
  from assms obtain grouped where
    uns: "groupTimes_unsorted s
       = Inr (s\<lparr>groupedTimes := grouped, selectedDate := array_get (Object_keys grouped) 0\<rparr>)"
    and srt: "groupTimes_sorted s
       = Inr (s\<lparr>groupedTimes :=
                  map (\<lambda>d. (d, array_sort compare_times (bucket grouped d)))
                    (array_sort compare_dates (Object_keys grouped)),
                selectedDate := array_get (array_sort compare_dates (Object_keys grouped)) 0\<rparr>)"
    and b: "\<And>k. bucket grouped k = filter (\<lambda>t. date_of t = k) ?xs"
    and keys: "fst ` set grouped = date_of ` set ?xs"
    and dist: "distinct (map fst grouped)"
    by (rule variants_on_valid) (rule that; assumption)
  let ?ds = "array_sort compare_dates (Object_keys grouped)"
  let ?g = "map (\<lambda>d. (d, array_sort compare_times (bucket grouped d))) ?ds"
  let ?r = "s\<lparr>groupedTimes := ?g, selectedDate := array_get ?ds 0\<rparr>"
  have ds: "set ?ds = date_of ` set ?xs" by (simp add: set_array_sort set_Object_keys keys)
  have dds: "distinct ?ds" using dist by (simp add: distinct_array_sort distinct_Object_keys)
  have "descending_by intraday (bucket ?g k)" for k
  proof (cases "k \<in> set ?ds")
    case True
    have "descending_by intraday (array_sort compare_times (bucket grouped k))"
      by (rule sorted_bucket_descending) (use assms(2) b in simp)
    with True show ?thesis by (simp add: bucket_map_keys)
  next
    case False
    then show ?thesis by (simp add: bucket_map_keys descending_by_def)
  qed
  moreover have kg: "set (Object_keys ?g) = date_of ` set ?xs"
    by (simp add: set_Object_keys keys_map_keys [simplified] ds image_image)
  have "descending_by date_number (picker_dates_sorted ?r)"
    unfolding picker_dates_sorted_def using sorted_dates_descending [OF assms(2) kg] by simp
  moreover have "set (picker_dates_sorted ?r) = date_of ` set ?xs"
    by (simp add: picker_dates_sorted_def set_array_sort kg)
  moreover have "distinct (picker_dates_sorted ?r)"
    using dds by (simp add: picker_dates_sorted_def distinct_array_sort distinct_Object_keys
        comp_def)
  ultimately have first: "\<exists>r. groupTimes_sorted s = Inr r
           \<and> (\<forall>k. descending_by intraday (bucket (groupedTimes r) k))
           \<and> descending_by date_number (picker_dates_sorted r)
           \<and> distinct (picker_dates_sorted r)
           \<and> set (picker_dates_sorted r) = date_of ` set ?xs"
    using srt by auto
  have "sorted (map date_number (Object_keys grouped))"
    using assms(2) keys by (rule unsorted_keys_ascending(2))
  then have second: "\<exists>u. groupTimes_unsorted s = Inr u
           \<and> (\<forall>k. bucket (groupedTimes u) k = filter (\<lambda>t. date_of t = k) ?xs)
           \<and> sorted (map date_number (picker_dates_unsorted u))"
    using uns b by (simp add: picker_dates_unsorted_def)
  from first second show ?thesis ..
qed

theorem sorting_variant_orders_witness:
  "availableTimes two_days_state \<noteq> []
   \<and> list_all valid_token (availableTimes two_days_state)
   \<and> (\<exists>r. groupTimes_sorted two_days_state = Inr r
      \<and> (\<forall>k. descending_by intraday (bucket (groupedTimes r) k))
      \<and> descending_by date_number (picker_dates_sorted r))"
  using sorting_variant_orders [of two_days_state]
  by (simp add: two_days_state_def valid_examples) blast

section \<open>The default date (C2)\<close>

text \<open>
  In the unsorted variant the default date is the first key of the grouped object. On three
  tokens of two days it is the older day, although the newer one is present.
\<close>

theorem unsorted_default_is_oldest:
  "groupTimes_unsorted two_days_state =
     Inr (two_days_state\<lparr>
       groupedTimes := [(''20240101'', [''20240101.000000'', ''20240101.060000'']),
                        (''20240102'', [''20240102.000000''])],
       selectedDate := Some ''20240101''\<rparr>)
   \<and> date_of ''20240102.000000'' = ''20240102''
   \<and> date_number ''20240101'' < date_number ''20240102''"
  by code_simp

text \<open>
  Claim C2, as amended: for every non-empty list of valid tokens, the default date selected
  by the sorting variant (\<open>part_000\<close>, \<open>part_002\<close>) is a date key of the input that is
  numerically greatest among them; the default date selected by the unsorted variant
  (\<open>index.tsx\<close>, \<open>part_001\<close>) is the first key of the grouped object, which is a date
  key of the input that is numerically smallest among them.
\<close>

theorem default_date_by_variant:
  assumes "availableTimes s \<noteq> []" and "\<forall>t\<in>set (availableTimes s). valid_token t"
  shows "(\<exists>r d. groupTimes_sorted s = Inr r \<and> selectedDate r = Some d
            \<and> d \<in> date_of ` set (availableTimes s)
            \<and> (\<forall>t\<in>set (availableTimes s). date_number (date_of t) \<le> date_number d))
       \<and> (\<exists>r d. groupTimes_unsorted s = Inr r \<and> selectedDate r = Some d
            \<and> d \<in> date_of ` set (availableTimes s)
            \<and> (\<forall>t\<in>set (availableTimes s). date_number d \<le> date_number (date_of t)))"
proof -
  let ?xs = "availableTimes s"
  from assms obtain grouped where
    uns: "groupTimes_unsorted s
       = Inr (s\<lparr>groupedTimes := grouped, selectedDate := array_get (Object_keys grouped) 0\<rparr>)"
    and srt: "groupTimes_sorted s
       = Inr (s\<lparr>groupedTimes :=
                  map (\<lambda>d. (d, array_sort compare_times (bucket grouped d)))
                    (array_sort compare_dates (Object_keys grouped)),
                selectedDate := array_get (array_sort compare_dates (Object_keys grouped)) 0\<rparr>)"
    and keys: "fst ` set grouped = date_of ` set ?xs"
    by (rule variants_on_valid) (rule that; assumption)
  let ?ks = "Object_keys grouped"
  let ?ds = "array_sort compare_dates ?ks"
  have ks: "set ?ks = date_of ` set ?xs" by (simp add: set_Object_keys keys)
  have ds: "set ?ds = date_of ` set ?xs" by (simp add: set_array_sort ks)
  have ne: "?ks \<noteq> []" "?ds \<noteq> []" using ks ds assms(1) by auto
  have "descending_by date_number ?ds" by (rule sorted_dates_descending [OF assms(2) ks])
  then have "\<forall>k\<in>set ?ds. date_number k \<le> date_number (?ds ! 0)"
    using ne(2) by (rule descending_head)
  then have top: "\<forall>t\<in>set ?xs. date_number (date_of t) \<le> date_number (?ds ! 0)"
    using ds by auto
  have "?ds ! 0 \<in> set ?ds" using ne(2) by simp
  then have mem: "?ds ! 0 \<in> date_of ` set ?xs" using ds by simp
  have first: "\<exists>r d. groupTimes_sorted s = Inr r \<and> selectedDate r = Some d
            \<and> d \<in> date_of ` set ?xs
            \<and> (\<forall>t\<in>set ?xs. date_number (date_of t) \<le> date_number d)"
    using srt top mem ne(2) by (simp add: array_get_0)
  have idx: "\<forall>k\<in>fst ` set grouped. is_array_index k"
    using keys assms(2) valid_date_is_index by auto
  then have asc: "?ks = sort_key digits_value (map fst grouped)" by (rule Object_keys_indices)
  have "sorted (map digits_value ?ks)" unfolding asc by (rule sorted_sort_key)
  then have "\<forall>k\<in>set ?ks. digits_value (?ks ! 0) \<le> digits_value k"
    using ne(1) by (rule sorted_head)
  moreover have dn: "\<forall>k\<in>set ?ks. date_number k = digits_value k"
    using ks assms(2) valid_date_number(2) by auto
  moreover have m0: "?ks ! 0 \<in> set ?ks" using ne(1) by simp
  ultimately have "\<forall>k\<in>set ?ks. date_number (?ks ! 0) \<le> date_number k" by simp
  then have low: "\<forall>t\<in>set ?xs. date_number (?ks ! 0) \<le> date_number (date_of t)"
    using ks by auto
  have second: "\<exists>r d. groupTimes_unsorted s = Inr r \<and> selectedDate r = Some d
            \<and> d \<in> date_of ` set ?xs
            \<and> (\<forall>t\<in>set ?xs. date_number d \<le> date_number (date_of t))"
    using uns low m0 ks ne(1) by (simp add: array_get_0)
  from first second show ?thesis ..
qed

theorem default_date_by_variant_witness:
  "availableTimes two_days_state \<noteq> []
   \<and> list_all valid_token (availableTimes two_days_state)
   \<and> (\<exists>r d. groupTimes_sorted two_days_state = Inr r \<and> selectedDate r = Some d
        \<and> (\<forall>t\<in>set (availableTimes two_days_state).
              date_number (date_of t) \<le> date_number d))"
  using default_date_by_variant [of two_days_state]
  by (simp add: two_days_state_def valid_examples) blast


section \<open>Every token in one bucket (C3)\<close>

text \<open>
  Claim C3: for every non-empty list of valid tokens both variants succeed, and in the
  mapping each builds every token of the input is in exactly one bucket, the one keyed by
  its first eight characters: keys are not repeated, a bucket holds only tokens of its own
  date, each token is in the bucket of its date, and the concatenation of the buckets is a
  permutation of the input. The mapping depends on the list alone: from any other state
  with the same list of available times the step builds the same mapping.
\<close>

theorem every_token_in_one_bucket:
  assumes "availableTimes s \<noteq> []" and "\<forall>t\<in>set (availableTimes s). valid_token t"
  shows "\<exists>u v. groupTimes_unsorted s = Inr u \<and> groupTimes_sorted s = Inr v
           \<and> buckets_partition (availableTimes s) (groupedTimes u)
           \<and> buckets_partition (availableTimes s) (groupedTimes v)
           \<and> (\<forall>s'. availableTimes s' = availableTimes s \<longrightarrow>
                 (\<exists>u' v'. groupTimes_unsorted s' = Inr u' \<and> groupTimes_sorted s' = Inr v'
                        \<and> groupedTimes u' = groupedTimes u \<and> groupedTimes v' = groupedTimes v))"
proof -
  let ?xs = "availableTimes s"
  from assms(2) obtain grouped where r: "reduce_group [] ?xs = Inr grouped"
    and b: "\<And>k. bucket grouped k = filter (\<lambda>t. date_of t = k) ?xs"
    and keys: "fst ` set grouped = date_of ` set ?xs"
    and dist: "distinct (map fst grouped)"
    and perm: "mset (concat (map snd grouped)) = mset ?xs"
    by (rule reduce_group_valid) (rule that; assumption)
  let ?ds = "array_sort compare_dates (Object_keys grouped)"
  let ?g = "map (\<lambda>d. (d, array_sort compare_times (bucket grouped d))) ?ds"
  have uns: "groupTimes_unsorted s' = Inr (s'\<lparr>groupedTimes := grouped,
        selectedDate := array_get (Object_keys grouped) 0\<rparr>)"
    if "availableTimes s' = ?xs" for s'
    using that assms(1) r by (simp add: groupTimes_unsorted_valid)
  have srt: "groupTimes_sorted s' = Inr (s'\<lparr>groupedTimes := ?g, selectedDate := array_get ?ds 0\<rparr>)"
    if "availableTimes s' = ?xs" for s'
    using that assms(1) r dist by (simp add: groupTimes_sorted_valid)
  have p1: "buckets_partition ?xs grouped" using b dist perm by (rule partition_grouped)
  have p2: "buckets_partition ?xs ?g" using b dist perm keys by (rule partition_sorted_copy)
  show ?thesis
    using uns [of s] srt [of s] uns srt p1 p2 by simp
qed

theorem every_token_in_one_bucket_witness:
  "availableTimes two_days_state \<noteq> []
   \<and> list_all valid_token (availableTimes two_days_state)
   \<and> (\<exists>u v. groupTimes_unsorted two_days_state = Inr u
        \<and> groupTimes_sorted two_days_state = Inr v
        \<and> buckets_partition (availableTimes two_days_state) (groupedTimes u)
        \<and> buckets_partition (availableTimes two_days_state) (groupedTimes v))"
  using every_token_in_one_bucket [of two_days_state]
  by (simp add: two_days_state_def valid_examples) blast


section \<open>The worked example (C4)\<close>

text \<open>
  On the three tokens of the example the unsorted variant (\<open>index.tsx\<close>, \<open>part_001\<close>)
  keeps the tokens of a day in input order and selects \<open>20240101\<close>, the first key of the
  grouped object. In the sorting variant the mapping enumerates its keys as
  \<open>20240101, 20240102\<close>: both keys are array indices, which \<open>Object.keys\<close> lists in
  ascending numeric order whatever the order of creation. So the step does not produce the
  keys in the order \<open>20240102, 20240101\<close> in either variant, nor the stated bucket and
  default date in the unsorted one.
\<close>

theorem example_unsorted_differs:
  "groupTimes_unsorted example_state =
     Inr (example_state\<lparr>
       groupedTimes := [(''20240101'', [''202401010000'', ''202401010600'']),
                        (''20240102'', [''202401020000''])],
       selectedDate := Some ''20240101''\<rparr>)
   \<and> groupTimes_sorted example_state =
     Inr (example_state\<lparr>
       groupedTimes := [(''20240102'', [''202401020000'']),
                        (''20240101'', [''202401010600'', ''202401010000''])],
       selectedDate := Some ''20240102''\<rparr>)
   \<and> Object_keys [(''20240102'', [''202401020000'']),
                    (''20240101'', [''202401010600'', ''202401010000''])]
       = [''20240101'', ''20240102'']"
  by code_simp

text \<open>
  Claim C4, as amended: on the input \<open>["202401010000","202401010600","202401020000"]\<close>
  the sorting variant (\<open>part_000\<close>, \<open>part_002\<close>) produces the mapping with exactly the
  keys \<open>20240102\<close> and \<open>20240101\<close>, whose buckets are \<open>["202401020000"]\<close> and
  \<open>["202401010600","202401010000"]\<close> in these orders, selects the default date
  \<open>20240102\<close>, and its picker lists the dates as \<open>20240102, 20240101\<close>.
\<close>

theorem example_sorted_result:
  "(case groupTimes_sorted example_state of
      Inl e \<Rightarrow> False
    | Inr r \<Rightarrow>
        set (Object_keys (groupedTimes r)) = {''20240102'', ''20240101''}
      \<and> bucket (groupedTimes r) ''20240102'' = [''202401020000'']
      \<and> bucket (groupedTimes r) ''20240101'' = [''202401010600'', ''202401010000'']
      \<and> selectedDate r = Some ''20240102''
      \<and> picker_dates_sorted r = [''20240102'', ''20240101''])"
  by code_simp


section \<open>The default time (C5)\<close>

text \<open>
  Claim C5: for every non-empty list of tokens that the times fetch returns for the
  selected layer, the token assigned to \<open>selectedTime\<close> is the last one of the list, in
  input order, and the list itself becomes \<open>availableTimes\<close>. This holds for the
  \<open>fetchTimes\<close> of all four files.
\<close>

theorem fetchTimes_selects_last_token:
  assumes "map_of data (gridLayer (selectedLayer s)) = Some ts" and "ts \<noteq> []"
  shows "selectedTime (fetchTimes s (Response (Some data))) = last ts
       \<and> selectedTime (fetchTimes_tiles s (Response (Some data))) = last ts
       \<and> selectedTime (fetchTimes_warn s (Response (Some data))) = last ts
       \<and> availableTimes (fetchTimes s (Response (Some data))) = ts
       \<and> availableTimes (fetchTimes_tiles s (Response (Some data))) = ts
       \<and> availableTimes (fetchTimes_warn s (Response (Some data))) = ts"
  using assms
  by (simp add: fetchTimes_def fetchTimes_tiles_def fetchTimes_warn_def fetchTurbulenceData_def
      last_index Let_def)

theorem fetchTimes_selects_last_token_witness:
  "map_of [(''turb-grid-30-31-kft'', [''20240101.000000'', ''20240102.060000''])]
       (gridLayer (selectedLayer initial_state))
     = Some [''20240101.000000'', ''20240102.060000'']
   \<and> selectedTime (fetchTimes initial_state
      (Response (Some [(''turb-grid-30-31-kft'', [''20240101.000000'', ''20240102.060000''])])))
     = ''20240102.060000''"
  using fetchTimes_selects_last_token
    [of "[(''turb-grid-30-31-kft'', [''20240101.000000'', ''20240102.060000''])]" initial_state
        "[''20240101.000000'', ''20240102.060000'']"]
  by (simp add: initial_state_def AVAILABLE_LAYERS_def)


section \<open>The empty list (C6)\<close>

text \<open>
  On an empty list the step only skips its body. When the list is emptied after a load, the
  mapping and the date of that load stay. In \<open>part_000\<close>: the three tokens are fetched
  and grouped, then an answer without the times arrives, \<open>fetchTimes\<close> warns and sets the
  list to the empty list, and the grouping step, run on the empty list, leaves the mapping
  with its two dates and the selected date \<open>20240102\<close>. In \<open>index.tsx\<close> the same
  happens when the later answer holds an empty array of times.
\<close>

theorem emptied_list_keeps_mapping:
  "fetchTimes_warn initial_state
      (Response (Some [(''turb-grid-30-31-kft'',
         [''20240101.000000'', ''20240101.060000'', ''20240102.000000''])]))
     = two_days_state\<lparr>selectedTime := ''20240102.000000''\<rparr>
   \<and> groupTimes_sorted (two_days_state\<lparr>selectedTime := ''20240102.000000''\<rparr>)
     = Inr loaded_state
   \<and> fetchTimes_warn loaded_state (Response None) = emptied_state
   \<and> availableTimes emptied_state = []
   \<and> groupTimes_sorted emptied_state = Inr emptied_state
   \<and> groupedTimes emptied_state
     = [(''20240102'', [''20240102.000000'']),
        (''20240101'', [''20240101.060000'', ''20240101.000000''])]
   \<and> selectedDate emptied_state = Some ''20240102''
   \<and> availableTimes
        (fetchTimes (two_days_state\<lparr>selectedDate := Some ''20240101'',
            groupedTimes := [(''20240101'', [''20240101.000000'', ''20240101.060000'']),
                             (''20240102'', [''20240102.000000''])]\<rparr>)
          (Response (Some [(''turb-grid-30-31-kft'', [])]))) = []
   \<and> groupedTimes
        (fetchTimes (two_days_state\<lparr>selectedDate := Some ''20240101'',
            groupedTimes := [(''20240101'', [''20240101.000000'', ''20240101.060000'']),
                             (''20240102'', [''20240102.000000''])]\<rparr>)
          (Response (Some [(''turb-grid-30-31-kft'', [])])))
     = [(''20240101'', [''20240101.000000'', ''20240101.060000'']),
        (''20240102'', [''20240102.000000''])]"
  by code_simp

text \<open>
  Claim C6, as amended: given an empty list of available times, the grouping step assigns
  nothing: in both variants it returns the state as it is, so the mapping,
  \<open>selectedDate\<close> and \<open>selectedTime\<close> keep the values they had. The mapping is empty
  and no date is selected after the step where that was so before it, as in the state that
  the effect of a layer change leaves; a mapping and a date that an earlier load left stay.
\<close>

theorem groupTimes_empty_assigns_nothing:
  assumes "availableTimes s = []"
  shows "groupTimes_unsorted s = Inr s \<and> groupTimes_sorted s = Inr s
       \<and> groupTimes_unsorted (reset_on_layer_change s0) = Inr (reset_on_layer_change s0)
       \<and> groupTimes_sorted (reset_on_layer_change s0) = Inr (reset_on_layer_change s0)
       \<and> groupedTimes (reset_on_layer_change s0) = []
       \<and> selectedDate (reset_on_layer_change s0) = None"
  using assms
  by (simp add: groupTimes_unsorted_def groupTimes_sorted_def reset_on_layer_change_def)

theorem groupTimes_empty_assigns_nothing_witness:
  "availableTimes emptied_state = []
   \<and> groupTimes_unsorted emptied_state = Inr emptied_state
   \<and> groupTimes_sorted emptied_state = Inr emptied_state
   \<and> groupedTimes (reset_on_layer_change loaded_state) = []
   \<and> selectedDate (reset_on_layer_change loaded_state) = None
   \<and> groupTimes_sorted (reset_on_layer_change loaded_state)
       = Inr (reset_on_layer_change loaded_state)"
  using groupTimes_empty_assigns_nothing [of emptied_state loaded_state]
  by (simp add: emptied_state_def)

section \<open>Malformed tokens (C7)\<close>

text \<open>
  No file validates a token. \<open>substring\<close> clamps its indices, so a token of four
  characters is its own date key: the grouping succeeds in both variants and
  \<open>formatTime\<close> returns its template with the missing fields empty.
\<close>

theorem short_token_is_accepted:
  "groupTimes_unsorted (initial_state\<lparr>availableTimes := [''2024'']\<rparr>)
     = Inr (initial_state\<lparr>availableTimes := [''2024''],
             groupedTimes := [(''2024'', [''2024''])], selectedDate := Some ''2024''\<rparr>)
   \<and> groupTimes_sorted (initial_state\<lparr>availableTimes := [''2024'']\<rparr>)
     = Inr (initial_state\<lparr>availableTimes := [''2024''],
             groupedTimes := [(''2024'', [''2024''])], selectedDate := Some ''2024''\<rparr>)
   \<and> formatTime ''2024'' = ''2024-- : UTC''"
  by code_simp


text \<open>
  Claim C7, as amended: the code has no validation error. For every token shorter than
  eight characters that is not the name of a member of \<open>Object.prototype\<close>, the grouping
  of the one-token list succeeds in both variants and files the token under itself as date
  key, which also becomes the selected date; and \<open>formatTime\<close> of a token of at most
  four characters is the token followed by the empty fields of its template.
\<close>

theorem short_token_grouped_silently:
  assumes "length t < 8" and "t \<notin> set object_prototype_names"
  shows "groupTimes_unsorted (s\<lparr>availableTimes := [t]\<rparr>)
           = Inr (s\<lparr>availableTimes := [t], groupedTimes := [(t, [t])], selectedDate := Some t\<rparr>)
       \<and> groupTimes_sorted (s\<lparr>availableTimes := [t]\<rparr>)
           = Inr (s\<lparr>availableTimes := [t], groupedTimes := [(t, [t])], selectedDate := Some t\<rparr>)
       \<and> (length t \<le> 4 \<longrightarrow> formatTime t = t @ ''-- : UTC'')"
  using assms
  by (simp add: groupTimes_unsorted_def groupTimes_sorted_def group_step_empty object_keys_single
      array_sort_def array_get_def prop_get_def prop_set_def formatTime_short Let_def)

theorem short_token_grouped_silently_witness:
  "length ''202'' < 8 \<and> ''202'' \<notin> set object_prototype_names
   \<and> groupTimes_sorted (initial_state\<lparr>availableTimes := [''202'']\<rparr>)
     = Inr (initial_state\<lparr>availableTimes := [''202''],
             groupedTimes := [(''202'', [''202''])], selectedDate := Some ''202''\<rparr>)
   \<and> formatTime ''202'' = ''202-- : UTC''"
  using short_token_grouped_silently [of "''202''" initial_state]
  by (simp add: object_prototype_names_def)


section \<open>Malformed responses and network errors (C8)\<close>

text \<open>
  Claim C8: when the response of the times fetch is malformed (no body, or no entry for
  the product id), nothing is raised and neither \<open>availableTimes\<close> nor
  \<open>selectedTime\<close> is filled from it: three files leave the state as it is, and
  \<open>part_000\<close> writes a warning to the console and sets the list of times to the empty
  list, leaving everything else. On a network error every file appends one error to the
  console and changes nothing else.
\<close>

theorem fetchTimes_malformed_or_failed:
  "(malformed s r \<longrightarrow>
        fetchTimes s r = s \<and> fetchTimes_tiles s r = s
      \<and> fetchTimes_warn s r = s\<lparr>console := console s @ [LogWarn], availableTimes := []\<rparr>)
   \<and> fetchTimes s NetworkError = s\<lparr>console := console s @ [LogError]\<rparr>
   \<and> fetchTimes_tiles s NetworkError = s\<lparr>console := console s @ [LogError]\<rparr>
   \<and> fetchTimes_warn s NetworkError = s\<lparr>console := console s @ [LogError]\<rparr>"
  by (auto simp: malformed_def fetchTimes_def fetchTimes_tiles_def fetchTimes_warn_def no_times_def
      split: response.splits option.splits)

theorem fetchTimes_malformed_or_failed_witness:
  "malformed example_state (Response (Some [(''turb-grid-32-33-kft'', [''20240101.000000''])]))
   \<and> fetchTimes example_state (Response (Some [(''turb-grid-32-33-kft'', [''20240101.000000''])]))
       = example_state
   \<and> selectedTime (fetchTimes_warn example_state
         (Response (Some [(''turb-grid-32-33-kft'', [''20240101.000000''])]))) = []
   \<and> availableTimes (fetchTimes_warn example_state
         (Response (Some [(''turb-grid-32-33-kft'', [''20240101.000000''])]))) = []
   \<and> availableTimes (fetchTimes example_state NetworkError) = availableTimes example_state"
  using fetchTimes_malformed_or_failed
    [of example_state "Response (Some [(''turb-grid-32-33-kft'', [''20240101.000000''])])"]
  by (simp add: malformed_def example_state_def initial_state_def AVAILABLE_LAYERS_def)


section \<open>The two variants agree up to order (C9)\<close>

text \<open>
  Claim C9: for every list of valid tokens, the empty one included, the unsorted variant
  and the sorting variant both succeed, their mappings have the same set of date keys, and
  for every date key the two buckets hold the same tokens as multisets.
\<close>

theorem variants_agree_up_to_order:
  assumes "\<forall>t\<in>set (availableTimes s). valid_token t"
  shows "\<exists>u v. groupTimes_unsorted s = Inr u \<and> groupTimes_sorted s = Inr v
           \<and> set (Object_keys (groupedTimes u)) = set (Object_keys (groupedTimes v))
           \<and> (\<forall>k. mset (bucket (groupedTimes u) k) = mset (bucket (groupedTimes v) k))"
proof (cases "availableTimes s = []")
  case True
  then show ?thesis by (simp add: groupTimes_unsorted_def groupTimes_sorted_def)
next
  case False
  from False assms obtain grouped where
    uns: "groupTimes_unsorted s
       = Inr (s\<lparr>groupedTimes := grouped, selectedDate := array_get (Object_keys grouped) 0\<rparr>)"
    and srt: "groupTimes_sorted s
       = Inr (s\<lparr>groupedTimes :=
                  map (\<lambda>d. (d, array_sort compare_times (bucket grouped d)))
                    (array_sort compare_dates (Object_keys grouped)),
                selectedDate := array_get (array_sort compare_dates (Object_keys grouped)) 0\<rparr>)"
    by (rule variants_on_valid) (rule that; assumption)
  let ?ds = "array_sort compare_dates (Object_keys grouped)"
  let ?g = "map (\<lambda>d. (d, array_sort compare_times (bucket grouped d))) ?ds"
  have ds: "set ?ds = fst ` set grouped" by (simp add: set_array_sort set_Object_keys)
  have "set (Object_keys grouped) = set (Object_keys ?g)"
    by (simp add: set_Object_keys ds image_image)
  moreover have "mset (bucket grouped k) = mset (bucket ?g k)" for k
  proof (cases "k \<in> fst ` set grouped")
    case True
    then show ?thesis using ds by (simp add: bucket_map_keys mset_array_sort)
  next
    case False
    then show ?thesis using ds by (simp add: bucket_map_keys bucket_absent)
  qed
  ultimately show ?thesis using uns srt by simp
qed

theorem variants_agree_up_to_order_witness:
  "list_all valid_token (availableTimes two_days_state)
   \<and> (\<exists>u v. groupTimes_unsorted two_days_state = Inr u
        \<and> groupTimes_sorted two_days_state = Inr v
        \<and> set (Object_keys (groupedTimes u)) = set (Object_keys (groupedTimes v))
        \<and> (\<forall>k. mset (bucket (groupedTimes u) k) = mset (bucket (groupedTimes v) k)))"
  using variants_agree_up_to_order [of two_days_state]
  by (simp add: two_days_state_def valid_examples)


section \<open>The polygon colour (C10)\<close>

text \<open>
  The three constants are the binary64 values nearest to the decimals of the literals:
  each is an integer below \<open>2^53\<close> over a power of two, within half a unit in the last
  place of its decimal.
\<close>

lemma literal_values:
  "binary64_0_8 = 3602879701896397 / 2 ^ 52 \<and> \<bar>binary64_0_8 - 8 / 10\<bar> < 1 / 2 ^ 54
   \<and> binary64_0_6 = 5404319552844595 / 2 ^ 53 \<and> \<bar>binary64_0_6 - 6 / 10\<bar> < 1 / 2 ^ 54
   \<and> binary64_0_4 = 3602879701896397 / 2 ^ 53 \<and> \<bar>binary64_0_4 - 4 / 10\<bar> < 1 / 2 ^ 55"
  by (simp add: binary64_0_8_def binary64_0_6_def binary64_0_4_def)





end
